theory Spec2Isabelle
  imports Main
begin

section \<open>WrapBase: the helper class for pybind11 class wrappers\<close>

text \<open>
  The development embeds \<^verbatim>\<open>libmarch/include/march/python/WrapBase.hpp\<close>: the class
  template \<^verbatim>\<open>WrapBase< Wrapper, Wrapped, Holder >\<close>, its static member \<^verbatim>\<open>commit\<close>
  with the function-local static \<^verbatim>\<open>derived\<close>, the protected constructor that builds
  the \<^verbatim>\<open>pybind11::class_\<close> handle \<^verbatim>\<open>m_cls\<close>, the four forwarding members generated by
  \<^verbatim>\<open>DECL_MARCH_PYBIND_CLASS_METHOD\<close>, and the defaulted copy operations.
\<close>

subsection \<open>Template parameters\<close>

text \<open>
  C++ types that occur as template arguments. \<open>Unique_ptr t\<close> is
  \<^verbatim>\<open>std::unique_ptr<t>\<close>; every other type is known by its name only.
\<close>

datatype cpptype = Named string | Unique_ptr cpptype

text \<open>
  One instantiation of the template, with the member type aliases of lines 32 to 34.
\<close>

record inst =
  wrapper_type :: cpptype
  wrapped_type :: cpptype
  holder_type :: cpptype

text \<open>
  \<^verbatim>\<open>template< class Wrapper, class Wrapped, class Holder = std::unique_ptr<Wrapped> >\<close>:
  the third argument may be left out.
\<close>

definition WrapBase :: "cpptype \<Rightarrow> cpptype \<Rightarrow> cpptype option \<Rightarrow> inst" where
  "WrapBase Wrapper Wrapped Holder =
     \<lparr>wrapper_type = Wrapper, wrapped_type = Wrapped,
      holder_type = (case Holder of None \<Rightarrow> Unique_ptr Wrapped | Some h \<Rightarrow> h)\<rparr>"

subsection \<open>The host runtime\<close>

text \<open>
  References to \<^verbatim>\<open>pybind11::module\<close> objects, and \<^verbatim>\<open>pybind11::class_\<close> handles. A
  handle is a counted reference to a class object of the host: copying the handle
  yields a handle to the same class object, so a handle is a value that names it.
  An exception of the host is known by its message.
\<close>

type_synonym modref = nat
type_synonym clsref = nat
type_synonym exn = string

text \<open>The four members generated by the macro at lines 55 to 58.\<close>

datatype member_kind =
  Def | Def_property | Def_property_readonly | Def_property_readonly_static

text \<open>
  The calls this header makes into pybind11. \<open>Class_ctor wrapped holder mod pyname clsdoc\<close>
  is \<^verbatim>\<open>pybind11::class_< wrapped, holder >(mod, pyname, clsdoc)\<close>, and
  \<open>Class_method k c args\<close> is \<^verbatim>\<open>c.METHOD(args...)\<close> for the member \<open>k\<close> of the handle
  \<open>c\<close>. The forwarded argument pack is opaque: it is a value of the type \<open>'a\<close>.
\<close>

datatype 'a host_call =
    Class_ctor cpptype cpptype modref string string
  | Class_method member_kind clsref 'a

text \<open>
  What the host has been asked so far: each call, the instantiation whose member made
  it, and what the host answered (\<open>Inl\<close> an exception, \<open>Inr\<close> the handle returned).
\<close>

record 'a entry =
  caller :: inst
  call :: "'a host_call"
  response :: "exn + clsref"

text \<open>
  Modelled from the spec: pybind11 itself (\<^verbatim>\<open>pybind11::class_\<close> and its members
  \<^verbatim>\<open>def\<close>, \<^verbatim>\<open>def_property\<close>, \<^verbatim>\<open>def_property_readonly\<close>,
  \<^verbatim>\<open>def_property_readonly_static\<close>) is an external library. The spec gives its
  contract only: declaring a class returns a handle or fails with a host-defined
  error, and each member primitive attaches one member to the class of the handle.
  The host is therefore a parameter: a function that, from the calls answered so far
  and the next call, gives the answer to that call. Every theorem below holds for
  every such host.
\<close>

type_synonym 'a host = "'a entry list \<Rightarrow> 'a host_call \<Rightarrow> exn + clsref"

definition host_invoke ::
  "'a host \<Rightarrow> inst \<Rightarrow> 'a host_call \<Rightarrow> 'a entry list \<Rightarrow> (exn + clsref) \<times> 'a entry list" where
  "host_invoke H T c tr =
     (let r = H tr c in (r, tr @ [\<lparr>caller = T, call = c, response = r\<rparr>]))"

subsection \<open>Objects and program state\<close>

text \<open>The only data member, line 68.\<close>

record wrapper =
  m_cls :: clsref

text \<open>
  Where an object of the type \<^verbatim>\<open>wrapper_type\<close> of an instantiation lives: in the
  function-local static \<^verbatim>\<open>derived\<close> of \<^verbatim>\<open>commit\<close> (one per instantiation), or in
  some other storage, numbered. A reference to a wrapper is such a place.
\<close>

datatype slot = Derived | Elsewhere nat

text \<open>
  The program state: the live wrapper objects of every instantiation, and the calls
  the host has received. \<open>objs s T Derived = None\<close> says that the static
  \<^verbatim>\<open>derived\<close> of \<open>T\<close> has not been initialised.
\<close>

record 'a state =
  objs :: "inst \<Rightarrow> slot \<rightharpoonup> wrapper"
  trace :: "'a entry list"

definition init :: "'a state" where
  "init = \<lparr>objs = (\<lambda>T. Map.empty), trace = []\<rparr>"

text \<open>
  An exception thrown by the host and not caught here, or a member call through a
  reference to no live object. The latter has no defined behaviour in C++; the model
  reports it, so that no theorem can rely on it silently.
\<close>

datatype error = Thrown exn | No_object

subsection \<open>The members of WrapBase\<close>

text \<open>
  Lines 64 to 66, the protected constructor:
  \<^verbatim>\<open>m_cls(pybind11::class_< wrapped_type, holder_type >(mod, pyname, clsdoc))\<close>,
  with an empty body. An exception of the \<^verbatim>\<open>class_\<close> constructor leaves it.
\<close>

definition WrapBase_ctor ::
  "'a host \<Rightarrow> inst \<Rightarrow> modref \<Rightarrow> string \<Rightarrow> string \<Rightarrow> 'a entry list
     \<Rightarrow> (error + wrapper) \<times> 'a entry list" where
  "WrapBase_ctor H T modu pyname clsdoc tr =
     (case host_invoke H T (Class_ctor (wrapped_type T) (holder_type T) modu pyname clsdoc) tr of
        (Inl e, tr') \<Rightarrow> (Inl (Thrown e), tr')
      | (Inr c, tr') \<Rightarrow> (Inr \<lparr>m_cls = c\<rparr>, tr'))"

text \<open>
  Lines 37 to 40:
  \<^verbatim>\<open>static wrapper_type derived(mod, pyname, clsdoc); return derived;\<close>
  A function-local static is initialised the first time control passes through its
  declaration; when the initialisation exits by an exception the variable stays
  uninitialised and the exception leaves \<^verbatim>\<open>commit\<close>; once initialised, the
  declaration does nothing. \<^verbatim>\<open>wrapper_type\<close> is the derived class of the
  curiously recurring pattern, which is not in this header: its constructor is taken
  to pass its three arguments to the protected constructor of the base and to do
  nothing else.
\<close>

definition commit ::
  "'a host \<Rightarrow> inst \<Rightarrow> modref \<Rightarrow> string \<Rightarrow> string \<Rightarrow> 'a state \<Rightarrow> (error + slot) \<times> 'a state" where
  "commit H T modu pyname clsdoc s =
     (case objs s T Derived of
        Some w \<Rightarrow> (Inr Derived, s)
      | None \<Rightarrow>
          (case WrapBase_ctor H T modu pyname clsdoc (trace s) of
             (Inl e, tr') \<Rightarrow> (Inl e, s\<lparr>trace := tr'\<rparr>)
           | (Inr w, tr') \<Rightarrow>
               (Inr Derived, s\<lparr>objs := (objs s)(T := (objs s T)(Derived \<mapsto> w)), trace := tr'\<rparr>)))"

text \<open>
  Lines 48 to 53, the body the macro gives each of the four members:
  \<^verbatim>\<open>m_cls.METHOD(std::forward<Args>(args)...); return *static_cast<wrapper_type*>(this);\<close>
\<close>

definition METHOD ::
  "member_kind \<Rightarrow> 'a host \<Rightarrow> inst \<Rightarrow> slot \<Rightarrow> 'a \<Rightarrow> 'a state \<Rightarrow> (error + slot) \<times> 'a state" where
  "METHOD k H T this args s =
     (case objs s T this of
        None \<Rightarrow> (Inl No_object, s)
      | Some w \<Rightarrow>
          (case host_invoke H T (Class_method k (m_cls w) args) (trace s) of
             (Inl e, tr') \<Rightarrow> (Inl (Thrown e), s\<lparr>trace := tr'\<rparr>)
           | (Inr c, tr') \<Rightarrow> (Inr this, s\<lparr>trace := tr'\<rparr>)))"

text \<open>Lines 55 to 58, the four uses of the macro.\<close>

definition def ::
  "'a host \<Rightarrow> inst \<Rightarrow> slot \<Rightarrow> 'a \<Rightarrow> 'a state \<Rightarrow> (error + slot) \<times> 'a state" where
  "def = METHOD Def"

definition def_property ::
  "'a host \<Rightarrow> inst \<Rightarrow> slot \<Rightarrow> 'a \<Rightarrow> 'a state \<Rightarrow> (error + slot) \<times> 'a state" where
  "def_property = METHOD Def_property"

definition def_property_readonly ::
  "'a host \<Rightarrow> inst \<Rightarrow> slot \<Rightarrow> 'a \<Rightarrow> 'a state \<Rightarrow> (error + slot) \<times> 'a state" where
  "def_property_readonly = METHOD Def_property_readonly"

definition def_property_readonly_static ::
  "'a host \<Rightarrow> inst \<Rightarrow> slot \<Rightarrow> 'a \<Rightarrow> 'a state \<Rightarrow> (error + slot) \<times> 'a state" where
  "def_property_readonly_static = METHOD Def_property_readonly_static"

text \<open>
  Line 43, \<^verbatim>\<open>WrapBase(WrapBase const & ) = default;\<close>: the new object, in the
  storage \<open>Elsewhere dst\<close> the caller provides, gets a copy of each member of the
  source. The static \<^verbatim>\<open>derived\<close> is never the new object: only \<^verbatim>\<open>commit\<close>
  constructs it.
\<close>

definition copy_ctor :: "inst \<Rightarrow> nat \<Rightarrow> slot \<Rightarrow> 'a state \<Rightarrow> (error + slot) \<times> 'a state" where
  "copy_ctor T dst src s =
     (case objs s T src of
        None \<Rightarrow> (Inl No_object, s)
      | Some w \<Rightarrow>
          (Inr (Elsewhere dst),
           s\<lparr>objs := (objs s)(T := (objs s T)(Elsewhere dst \<mapsto> \<lparr>m_cls = m_cls w\<rparr>))\<rparr>))"

text \<open>
  Line 45, \<^verbatim>\<open>WrapBase & operator=(WrapBase const & ) = default;\<close>: each member of
  the receiver is assigned from the source, and the receiver is returned.
\<close>

definition copy_assign :: "inst \<Rightarrow> slot \<Rightarrow> slot \<Rightarrow> 'a state \<Rightarrow> (error + slot) \<times> 'a state" where
  "copy_assign T this src s =
     (case objs s T this of
        None \<Rightarrow> (Inl No_object, s)
      | Some w \<Rightarrow>
          (case objs s T src of
             None \<Rightarrow> (Inl No_object, s)
           | Some w' \<Rightarrow>
               (Inr this, s\<lparr>objs := (objs s)(T := (objs s T)(this \<mapsto> w\<lparr>m_cls := m_cls w'\<rparr>))\<rparr>)))"

subsection \<open>Client programs\<close>

text \<open>The member of the class that each kind of registration names.\<close>

fun registration ::
  "member_kind \<Rightarrow> 'a host \<Rightarrow> inst \<Rightarrow> slot \<Rightarrow> 'a \<Rightarrow> 'a state \<Rightarrow> (error + slot) \<times> 'a state" where
  "registration Def = def"
| "registration Def_property = def_property"
| "registration Def_property_readonly = def_property_readonly"
| "registration Def_property_readonly_static = def_property_readonly_static"

text \<open>
  A fluent chain \<^verbatim>\<open>r.k1(a1).k2(a2)...\<close>: each member is called on the reference the
  previous one returned, and an exception ends the chain.
\<close>

fun chain ::
  "'a host \<Rightarrow> inst \<Rightarrow> slot \<Rightarrow> (member_kind \<times> 'a) list \<Rightarrow> 'a state \<Rightarrow> (error + slot) \<times> 'a state" where
  "chain H T r [] s = (Inr r, s)"
| "chain H T r ((k, a) # cs) s =
     (case registration k H T r a s of
        (Inl e, s') \<Rightarrow> (Inl e, s')
      | (Inr r', s') \<Rightarrow> chain H T r' cs s')"

text \<open>
  The operations a client of the class can perform, and a client that performs a
  list of them one after the other, going on after an exception (as a caller that
  catches it does).
\<close>

datatype 'a op =
    Commit inst modref string string
  | Method member_kind inst slot 'a
  | Copy_ctor inst nat slot
  | Copy_assign inst slot slot

fun exec :: "'a host \<Rightarrow> 'a op \<Rightarrow> 'a state \<Rightarrow> (error + slot) \<times> 'a state" where
  "exec H (Commit T modu pyname clsdoc) s = commit H T modu pyname clsdoc s"
| "exec H (Method k T this args) s = registration k H T this args s"
| "exec H (Copy_ctor T dst src) s = copy_ctor T dst src s"
| "exec H (Copy_assign T this src) s = copy_assign T this src s"

fun run :: "'a host \<Rightarrow> 'a op list \<Rightarrow> 'a state \<Rightarrow> 'a state" where
  "run H [] s = s"
| "run H (x # xs) s = run H xs (snd (exec H x s))"

text \<open>The same member called \<open>cs\<close> times on one reference, as separate statements.\<close>

definition calls :: "inst \<Rightarrow> slot \<Rightarrow> (member_kind \<times> 'a) list \<Rightarrow> 'a op list" where
  "calls T r cs = map (\<lambda>(k, a). Method k T r a) cs"

subsection \<open>Observations on the calls the host received\<close>

definition is_ctor :: "'a host_call \<Rightarrow> bool" where
  "is_ctor c = (case c of Class_ctor wd ho m n d \<Rightarrow> True | Class_method k h a \<Rightarrow> False)"

text \<open>The class declarations that members of the instantiation \<open>T\<close> asked for.\<close>

definition ctor_calls :: "inst \<Rightarrow> 'a entry list \<Rightarrow> 'a entry list" where
  "ctor_calls T tr = filter (\<lambda>e. caller e = T \<and> is_ctor (call e)) tr"

text \<open>The handles that those declarations returned: the ones that did not throw.\<close>

definition handles_created :: "inst \<Rightarrow> 'a entry list \<Rightarrow> clsref list" where
  "handles_created T tr =
     concat (map (\<lambda>e. case response e of Inl x \<Rightarrow> [] | Inr c \<Rightarrow> [c]) (ctor_calls T tr))"

text \<open>
  The static \<^verbatim>\<open>derived\<close> of \<open>T\<close> is initialised exactly when one class declaration
  of \<open>T\<close> has returned a handle, and no second one ever has.
\<close>

definition once :: "inst \<Rightarrow> 'a state \<Rightarrow> bool" where
  "once T s =
     (length (handles_created T (trace s)) = (if objs s T Derived = None then 0 else 1))"

text \<open>What the host receives when the member \<open>k\<close> is called with \<open>a\<close> on the handle \<open>c\<close>.\<close>

definition forwarded :: "clsref \<Rightarrow> member_kind \<times> 'a \<Rightarrow> 'a host_call" where
  "forwarded c = (\<lambda>(k, a). Class_method k c a)"

subsection \<open>A host and two wrappers to run the members on\<close>

text \<open>
  Modelled from the spec: a host as section 6 of the spec describes it. Declaring a
  class fails when the name is already taken in the module, and otherwise returns a
  new handle; the member primitives accept every call and return the handle they
  were called on.
\<close>

definition name_taken :: "modref \<Rightarrow> string \<Rightarrow> 'a entry \<Rightarrow> bool" where
  "name_taken m n e =
     (case call e of
        Class_ctor wd ho m' n' d \<Rightarrow>
          (case response e of Inl x \<Rightarrow> False | Inr c \<Rightarrow> m' = m \<and> n' = n)
      | Class_method k h a \<Rightarrow> False)"

definition sample_host :: "'a host" where
  "sample_host tr c =
     (case c of
        Class_ctor wd ho m n d \<Rightarrow>
          if list_ex (name_taken m n) tr then Inl ''name already defined'' else Inr (length tr)
      | Class_method k h a \<Rightarrow> Inr h)"

definition WrapVector :: inst where
  "WrapVector = WrapBase (Named ''WrapVector'') (Named ''Vector'') None"

definition WrapMatrix :: inst where
  "WrapMatrix = WrapBase (Named ''WrapMatrix'') (Named ''Matrix'') (Some (Named ''std::shared_ptr<Matrix>''))"

text \<open>
  Three states of a run on that host: after \<^verbatim>\<open>WrapVector::commit(m, "Vector", "doc1")\<close>;
  after a copy of that wrapper has been made as well; and after another wrapper has
  taken the name \<^verbatim>\<open>Vector\<close> in the module.
\<close>

definition vector_committed :: "string state" where
  "vector_committed = snd (commit sample_host WrapVector 0 ''Vector'' ''doc1'' init)"

definition vector_copied :: "string state" where
  "vector_copied = snd (copy_ctor WrapVector 1 Derived vector_committed)"

definition name_in_use :: "string state" where
  "name_in_use = snd (commit sample_host WrapMatrix 0 ''Vector'' ''a matrix'' init)"

section \<open>Properties\<close>

subsection \<open>The members, one case at a time\<close>

lemma host_invoke_eq:
  "host_invoke H T c tr = (H tr c, tr @ [\<lparr>caller = T, call = c, response = H tr c\<rparr>])"
  by (simp add: host_invoke_def Let_def)

lemma registration_METHOD: "registration k = METHOD k"
  by (cases k)
     (simp_all add: def_def def_property_def def_property_readonly_def
        def_property_readonly_static_def)

lemma commit_initialised:
  "objs s T Derived = Some w \<Longrightarrow> commit H T m n d s = (Inr Derived, s)"
  by (simp add: commit_def)

lemma commit_returned:
  assumes "objs s T Derived = None"
    and "H (trace s) (Class_ctor (wrapped_type T) (holder_type T) m n d) = Inr c"
  shows "commit H T m n d s =
     (Inr Derived,
      s\<lparr>objs := (objs s)(T := (objs s T)(Derived \<mapsto> \<lparr>m_cls = c\<rparr>)),
        trace := trace s @ [\<lparr>caller = T,
           call = Class_ctor (wrapped_type T) (holder_type T) m n d, response = Inr c\<rparr>]\<rparr>)"
  using assms by (simp add: commit_def WrapBase_ctor_def host_invoke_eq)

lemma commit_thrown:
  assumes "objs s T Derived = None"
    and "H (trace s) (Class_ctor (wrapped_type T) (holder_type T) m n d) = Inl e"
  shows "commit H T m n d s =
     (Inl (Thrown e),
      s\<lparr>trace := trace s @ [\<lparr>caller = T,
           call = Class_ctor (wrapped_type T) (holder_type T) m n d, response = Inl e\<rparr>]\<rparr>)"
  using assms by (simp add: commit_def WrapBase_ctor_def host_invoke_eq)

lemma registration_live:
  "objs s T r = Some w \<Longrightarrow>
   registration k H T r a s =
     ((case H (trace s) (Class_method k (m_cls w) a) of
         Inl e \<Rightarrow> Inl (Thrown e) | Inr c \<Rightarrow> Inr r),
      s\<lparr>trace := trace s @ [\<lparr>caller = T, call = Class_method k (m_cls w) a,
           response = H (trace s) (Class_method k (m_cls w) a)\<rparr>]\<rparr>)"
  by (simp add: registration_METHOD METHOD_def host_invoke_eq split: sum.split)

lemma registration_no_object:
  "objs s T r = None \<Longrightarrow> registration k H T r a s = (Inl No_object, s)"
  by (simp add: registration_METHOD METHOD_def)

lemma registration_objs: "objs (snd (registration k H T r a s)) = objs s"
  by (cases "objs s T r") (simp_all add: registration_live registration_no_object)

lemma registration_result: "fst (registration k H T r a s) = Inr r' \<Longrightarrow> r' = r"
  by (cases "objs s T r")
     (auto simp: registration_live registration_no_object split: sum.splits)

subsection \<open>Lists of operations\<close>

lemma exec_keeps_live:
  "objs s T r \<noteq> None \<Longrightarrow> objs (snd (exec H x s)) T r \<noteq> None"
  by (cases x)
     (auto simp: commit_def WrapBase_ctor_def host_invoke_eq registration_objs copy_ctor_def
        copy_assign_def split: option.splits sum.splits)

lemma run_keeps_live:
  "objs s T r \<noteq> None \<Longrightarrow> objs (run H xs s) T r \<noteq> None"
proof (induction xs arbitrary: s)
  case Nil
  then show ?case by simp
next
  case (Cons x xs)
  from Cons.prems have "objs (snd (exec H x s)) T r \<noteq> None"
    by (rule exec_keeps_live)
  then show ?case using Cons.IH by simp
qed

lemma exec_ctor_calls:
  "objs s T Derived \<noteq> None \<Longrightarrow>
   ctor_calls T (trace (snd (exec H x s))) = ctor_calls T (trace s)"
  by (cases x)
     (auto simp: commit_def WrapBase_ctor_def host_invoke_eq registration_METHOD METHOD_def
        copy_ctor_def copy_assign_def ctor_calls_def is_ctor_def
        split: option.splits sum.splits)

lemma run_ctor_calls:
  "objs s T Derived \<noteq> None \<Longrightarrow> ctor_calls T (trace (run H xs s)) = ctor_calls T (trace s)"
proof (induction xs arbitrary: s)
  case Nil
  then show ?case by simp
next
  case (Cons x xs)
  from Cons.prems have live: "objs (snd (exec H x s)) T Derived \<noteq> None"
    by (rule exec_keeps_live)
  have "ctor_calls T (trace (run H (x # xs) s)) = ctor_calls T (trace (snd (exec H x s)))"
    using Cons.IH [OF live] by simp
  also have "\<dots> = ctor_calls T (trace s)"
    using Cons.prems by (rule exec_ctor_calls)
  finally show ?case .
qed

lemma chain_result:
  "fst (chain H T r cs s) = Inr r' \<Longrightarrow> r' = r"
proof (induction cs arbitrary: s)
  case Nil
  then show ?case by simp
next
  case (Cons x cs)
  obtain k a where x: "x = (k, a)" by (cases x)
  show ?case
  proof (cases "registration k H T r a s")
    case (Pair res s')
    show ?thesis
    proof (cases res)
      case (Inl e)
      with Pair x Cons.prems show ?thesis by simp
    next
      case (Inr r1)
      with Pair have "r1 = r" using registration_result [of k H T r a s r1] by simp
      with Pair Inr x Cons.prems have "fst (chain H T r cs s') = Inr r'" by simp
      then show ?thesis by (rule Cons.IH)
    qed
  qed
qed

lemma chain_is_run:
  assumes quiet: "\<And>tr k c a. \<exists>h. H tr (Class_method k c a) = Inr h"
  shows "objs s T r = Some w \<Longrightarrow> chain H T r cs s = (Inr r, run H (calls T r cs) s)"
proof (induction cs arbitrary: s)
  case Nil
  then show ?case by (simp add: calls_def)
next
  case (Cons x cs)
  obtain k a where x: "x = (k, a)" by (cases x)
  obtain h where h: "H (trace s) (Class_method k (m_cls w) a) = Inr h"
    using quiet by blast
  let ?s' = "s\<lparr>trace := trace s @ [\<lparr>caller = T, call = Class_method k (m_cls w) a,
           response = Inr h\<rparr>]\<rparr>"
  have step: "registration k H T r a s = (Inr r, ?s')"
    using Cons.prems h by (simp add: registration_live)
  have "objs ?s' T r = Some w" using Cons.prems by simp
  then have "chain H T r cs ?s' = (Inr r, run H (calls T r cs) ?s')"
    by (rule Cons.IH)
  with step x show ?case by (simp add: calls_def)
qed

lemma run_calls:
  "objs s T r = Some w \<Longrightarrow>
   \<exists>es. trace (run H (calls T r cs) s) = trace s @ es
      \<and> map call es = map (forwarded (m_cls w)) cs
      \<and> map caller es = replicate (length cs) T
      \<and> objs (run H (calls T r cs) s) = objs s"
proof (induction cs arbitrary: s)
  case Nil
  then show ?case by (simp add: calls_def)
next
  case (Cons x cs)
  obtain k a where x: "x = (k, a)" by (cases x)
  let ?e = "\<lparr>caller = T, call = Class_method k (m_cls w) a,
           response = H (trace s) (Class_method k (m_cls w) a)\<rparr>"
  let ?s' = "s\<lparr>trace := trace s @ [?e]\<rparr>"
  have step: "snd (registration k H T r a s) = ?s'"
    using Cons.prems by (simp add: registration_live)
  have "objs ?s' T r = Some w" using Cons.prems by simp
  from Cons.IH [OF this] obtain es where
    es: "trace (run H (calls T r cs) ?s') = trace ?s' @ es"
      "map call es = map (forwarded (m_cls w)) cs"
      "map caller es = replicate (length cs) T"
      "objs (run H (calls T r cs) ?s') = objs ?s'"
    by blast
  have run: "run H (calls T r (x # cs)) s = run H (calls T r cs) ?s'"
    using x step by (simp add: calls_def)
  have "trace (run H (calls T r (x # cs)) s) = trace s @ (?e # es)"
    using run es(1) by simp
  moreover have "map call (?e # es) = map (forwarded (m_cls w)) (x # cs)"
    using es(2) x by (simp add: forwarded_def)
  moreover have "map caller (?e # es) = replicate (length (x # cs)) T"
    using es(3) by simp
  moreover have "objs (run H (calls T r (x # cs)) s) = objs s"
    using run es(4) by simp
  ultimately show ?case by blast
qed

lemma exec_once: "once T s \<Longrightarrow> once T (snd (exec H x s))"
  by (cases x)
     (auto simp: once_def handles_created_def ctor_calls_def is_ctor_def commit_def
        WrapBase_ctor_def host_invoke_eq registration_METHOD METHOD_def copy_ctor_def
        copy_assign_def split: option.splits sum.splits if_splits)

lemma run_once: "once T s \<Longrightarrow> once T (run H xs s)"
proof (induction xs arbitrary: s)
  case Nil
  then show ?case by simp
next
  case (Cons x xs)
  from Cons.prems have "once T (snd (exec H x s))" by (rule exec_once)
  then show ?case using Cons.IH by simp
qed

lemma init_once: "once T init"
  by (simp add: once_def init_def handles_created_def ctor_calls_def)

subsection \<open>The three states, evaluated\<close>

lemma vector_committed_eq:
  "vector_committed =
     \<lparr>objs = (\<lambda>T. Map.empty)(WrapVector := [Derived \<mapsto> \<lparr>m_cls = 0\<rparr>]),
      trace = [\<lparr>caller = WrapVector,
         call = Class_ctor (Named ''Vector'') (Unique_ptr (Named ''Vector'')) 0 ''Vector'' ''doc1'',
         response = Inr 0\<rparr>]\<rparr>"
  by (simp add: vector_committed_def commit_def WrapBase_ctor_def host_invoke_eq
      sample_host_def init_def WrapVector_def WrapBase_def)

lemma vector_copied_eq:
  "vector_copied =
     \<lparr>objs = (\<lambda>T. Map.empty)
        (WrapVector := [Derived \<mapsto> \<lparr>m_cls = 0\<rparr>, Elsewhere 1 \<mapsto> \<lparr>m_cls = 0\<rparr>]),
      trace = [\<lparr>caller = WrapVector,
         call = Class_ctor (Named ''Vector'') (Unique_ptr (Named ''Vector'')) 0 ''Vector'' ''doc1'',
         response = Inr 0\<rparr>]\<rparr>"
  by (simp add: vector_copied_def vector_committed_eq copy_ctor_def)

lemma name_in_use_eq:
  "name_in_use =
     \<lparr>objs = (\<lambda>T. Map.empty)(WrapMatrix := [Derived \<mapsto> \<lparr>m_cls = 0\<rparr>]),
      trace = [\<lparr>caller = WrapMatrix,
         call = Class_ctor (Named ''Matrix'') (Named ''std::shared_ptr<Matrix>'') 0 ''Vector''
           ''a matrix'',
         response = Inr 0\<rparr>]\<rparr>"
  by (simp add: name_in_use_def commit_def WrapBase_ctor_def host_invoke_eq
      sample_host_def init_def WrapMatrix_def WrapBase_def)

subsection \<open>The singleton of commit\<close>

text \<open>
  C1. Let the static \<^verbatim>\<open>derived\<close> of \<open>T\<close> be uninitialised, with no class declaration
  of \<open>T\<close> made so far, and let a first \<^verbatim>\<open>commit\<close> return the reference \<open>r\<close>. Then
  \<open>r\<close> is the static \<^verbatim>\<open>derived\<close>, where that call has built a wrapper holding the
  handle the host returned. After any list \<open>ops\<close> of further operations the wrapper
  at \<open>r\<close> is still live (a member called on \<open>r\<close> reaches the host), \<^verbatim>\<open>commit\<close> for
  \<open>T\<close> with any module, name and doc returns the same reference \<open>r\<close> and leaves the
  whole state as it is (so nothing of its arguments reaches the host), and the host
  has received exactly one class declaration from \<open>T\<close>: the one with the module, name
  and doc of the first call.
\<close>

theorem commit_returns_first_instance:
  assumes "objs s T Derived = None"
    and "ctor_calls T (trace s) = []"
    and "commit H T m n d s = (Inr r, s1)"
  shows "commit H T m' n' d' (run H ops s1) = (Inr r, run H ops s1)
    \<and> map call (ctor_calls T (trace (run H ops s1)))
        = [Class_ctor (wrapped_type T) (holder_type T) m n d]
    \<and> r = Derived
    \<and> (\<exists>c. H (trace s) (Class_ctor (wrapped_type T) (holder_type T) m n d) = Inr c
          \<and> objs s1 T r = Some \<lparr>m_cls = c\<rparr>
          \<and> map response (ctor_calls T (trace (run H ops s1))) = [Inr c])
    \<and> objs (run H ops s1) T r \<noteq> None
    \<and> fst (registration k H T r a (run H ops s1)) \<noteq> Inl No_object"
proof (cases "H (trace s) (Class_ctor (wrapped_type T) (holder_type T) m n d)")
  case (Inl e)
  with assms(1) have "fst (commit H T m n d s) = Inl (Thrown e)"
    by (simp add: commit_thrown)
  with assms(3) show ?thesis by simp
next
  case (Inr c)
  let ?e = "\<lparr>caller = T, call = Class_ctor (wrapped_type T) (holder_type T) m n d,
      response = Inr c :: exn + clsref\<rparr>"
  from assms(1) Inr assms(3) have r: "r = Derived"
    and s1: "s1 = s\<lparr>objs := (objs s)(T := (objs s T)(Derived \<mapsto> \<lparr>m_cls = c\<rparr>)),
        trace := trace s @ [?e]\<rparr>"
    by (simp_all add: commit_returned)
  from s1 have built: "objs s1 T Derived = Some \<lparr>m_cls = c\<rparr>" by simp
  then have live: "objs s1 T Derived \<noteq> None" by simp
  then have later: "objs (run H ops s1) T Derived \<noteq> None"
    by (rule run_keeps_live)
  then obtain w where w: "objs (run H ops s1) T Derived = Some w"
    by blast
  then have again: "commit H T m' n' d' (run H ops s1) = (Inr r, run H ops s1)"
    using r by (simp add: commit_initialised)
  have "ctor_calls T (trace s1) = [?e]"
    using s1 assms(2) by (simp add: ctor_calls_def is_ctor_def)
  then have decl: "ctor_calls T (trace (run H ops s1)) = [?e]"
    using run_ctor_calls [OF live, of H ops] by simp
  have reached: "fst (registration k H T r a (run H ops s1)) \<noteq> Inl No_object"
    using w r by (simp add: registration_live split: sum.split)
  have handle: "\<exists>c. H (trace s) (Class_ctor (wrapped_type T) (holder_type T) m n d) = Inr c
      \<and> objs s1 T r = Some \<lparr>m_cls = c\<rparr>
      \<and> map response (ctor_calls T (trace (run H ops s1))) = [Inr c]"
    using Inr built r decl by simp
  from again decl r handle later reached show ?thesis by simp
qed

theorem commit_returns_first_instance_witness:
  "objs (init :: string state) WrapVector Derived = None
   \<and> ctor_calls WrapVector (trace (init :: string state)) = []
   \<and> commit sample_host WrapVector 0 ''Vector'' ''doc1'' init = (Inr Derived, vector_committed)
   \<and> objs vector_committed WrapVector Derived = Some \<lparr>m_cls = 0\<rparr>
   \<and> commit sample_host WrapVector 0 ''Vector'' ''doc2'' vector_committed
       = (Inr Derived, vector_committed)
   \<and> map call (trace vector_committed)
       = [Class_ctor (Named ''Vector'') (Unique_ptr (Named ''Vector'')) 0 ''Vector'' ''doc1'']
   \<and> objs (run sample_host
        [Copy_ctor WrapVector 1 Derived, Commit WrapVector 0 ''Vector'' ''doc2'',
         Method Def WrapVector Derived ''norm''] vector_committed) WrapVector Derived \<noteq> None
   \<and> fst (def sample_host WrapVector Derived ''norm'' vector_committed) \<noteq> Inl No_object"
proof -
  have h1: "objs (init :: string state) WrapVector Derived = None"
    by (simp add: init_def)
  have h2: "ctor_calls WrapVector (trace (init :: string state)) = []"
    by (simp add: init_def ctor_calls_def)
  have h3: "commit sample_host WrapVector 0 ''Vector'' ''doc1'' init
      = (Inr Derived, vector_committed)"
    by (simp add: vector_committed_def commit_def WrapBase_ctor_def host_invoke_eq
        sample_host_def init_def)
  have now: "commit sample_host WrapVector 0 ''Vector'' ''doc2'' (run sample_host [] vector_committed)
      = (Inr Derived, run sample_host [] vector_committed)
    \<and> fst (registration Def sample_host WrapVector Derived ''norm''
        (run sample_host [] vector_committed)) \<noteq> Inl No_object"
    using commit_returns_first_instance
      [where H = sample_host and s = "init :: string state" and T = WrapVector and m = 0
         and n = "''Vector''" and d = "''doc1''"
         and m' = 0 and n' = "''Vector''" and d' = "''doc2''" and ops = "[]" and k = Def
         and a = "''norm''", OF h1 h2 h3]
    by blast
  have later: "objs (run sample_host
        [Copy_ctor WrapVector 1 Derived, Commit WrapVector 0 ''Vector'' ''doc2'',
         Method Def WrapVector Derived ''norm''] vector_committed) WrapVector Derived \<noteq> None"
    using commit_returns_first_instance
      [where H = sample_host and s = "init :: string state" and T = WrapVector and m = 0
         and n = "''Vector''" and d = "''doc1''"
         and ops = "[Copy_ctor WrapVector 1 Derived, Commit WrapVector 0 ''Vector'' ''doc2'',
            Method Def WrapVector Derived ''norm'']", OF h1 h2 h3]
    by blast
  from now later show ?thesis using h1 h2 h3 by (simp add: vector_committed_eq)
qed

text \<open>
  C2. When the static \<^verbatim>\<open>derived\<close> of \<open>T\<close> is uninitialised and the host answers the
  class declaration with a handle \<open>c\<close>, \<^verbatim>\<open>commit\<close> returns the reference to
  \<^verbatim>\<open>derived\<close>, which now holds \<open>c\<close> in \<^verbatim>\<open>m_cls\<close>; the host has received one more
  call, the declaration of the wrapped type with the holder type of \<open>T\<close> and the
  supplied module, name and doc. The holder type is \<^verbatim>\<open>std::unique_ptr<Wrapped>\<close> when
  the template argument is left out, and the given one otherwise.
\<close>

theorem commit_first_call_declares_class:
  assumes "objs s T Derived = None"
    and "H (trace s) (Class_ctor (wrapped_type T) (holder_type T) m n d) = Inr c"
  shows "fst (commit H T m n d s) = Inr Derived
    \<and> objs (snd (commit H T m n d s)) = (objs s)(T := (objs s T)(Derived \<mapsto> \<lparr>m_cls = c\<rparr>))
    \<and> trace (snd (commit H T m n d s))
        = trace s @ [\<lparr>caller = T,
            call = Class_ctor (wrapped_type T) (holder_type T) m n d, response = Inr c\<rparr>]
    \<and> holder_type (WrapBase Wrapper Wrapped None) = Unique_ptr Wrapped
    \<and> holder_type (WrapBase Wrapper Wrapped (Some h)) = h"
proof -
  have "commit H T m n d s =
     (Inr Derived,
      s\<lparr>objs := (objs s)(T := (objs s T)(Derived \<mapsto> \<lparr>m_cls = c\<rparr>)),
        trace := trace s @ [\<lparr>caller = T,
           call = Class_ctor (wrapped_type T) (holder_type T) m n d, response = Inr c\<rparr>]\<rparr>)"
    using assms by (rule commit_returned)
  moreover have "holder_type (WrapBase Wrapper Wrapped None) = Unique_ptr Wrapped"
    by (simp add: WrapBase_def)
  moreover have "holder_type (WrapBase Wrapper Wrapped (Some h)) = h"
    by (simp add: WrapBase_def)
  ultimately show ?thesis by simp
qed

theorem commit_first_call_declares_class_witness:
  "objs (init :: string state) WrapVector Derived = None
   \<and> sample_host (trace (init :: string state))
        (Class_ctor (wrapped_type WrapVector) (holder_type WrapVector) 0 ''Vector'' ''doc1'') = Inr 0
   \<and> fst (commit sample_host WrapVector 0 ''Vector'' ''doc1'' (init :: string state)) = Inr Derived
   \<and> objs (snd (commit sample_host WrapVector 0 ''Vector'' ''doc1'' (init :: string state)))
        WrapVector Derived = Some \<lparr>m_cls = 0\<rparr>
   \<and> trace (snd (commit sample_host WrapVector 0 ''Vector'' ''doc1'' (init :: string state)))
       = [\<lparr>caller = WrapVector,
           call = Class_ctor (Named ''Vector'') (Unique_ptr (Named ''Vector'')) 0 ''Vector'' ''doc1'',
           response = Inr 0\<rparr>]"
proof -
  have h1: "objs (init :: string state) WrapVector Derived = None"
    by (simp add: init_def)
  have h2: "sample_host (trace (init :: string state))
        (Class_ctor (wrapped_type WrapVector) (holder_type WrapVector) 0 ''Vector'' ''doc1'') = Inr 0"
    by (simp add: init_def sample_host_def)
  show ?thesis
    using h1 h2 commit_first_call_declares_class
      [where H = sample_host and s = "init :: string state" and T = WrapVector and m = 0
         and n = "''Vector''" and d = "''doc1''" and c = 0, OF h1 h2]
    by (simp add: init_def WrapVector_def WrapBase_def)
qed

text \<open>
  C3. When the static \<^verbatim>\<open>derived\<close> of \<open>T\<close> is uninitialised and the host answers the
  class declaration with the exception \<open>e\<close>, \<^verbatim>\<open>commit\<close> ends with that exception,
  no object has been created or changed, and the host has received that one call only
  (there is no second attempt inside). The next \<^verbatim>\<open>commit\<close> for \<open>T\<close> declares the
  class again, with its own arguments, and when the host then returns a handle it
  returns the reference to \<^verbatim>\<open>derived\<close>, which holds that handle.
\<close>

theorem commit_failure_leaves_unconstructed:
  assumes "objs s T Derived = None"
    and "H (trace s) (Class_ctor (wrapped_type T) (holder_type T) m n d) = Inl e"
  shows "let s' = snd (commit H T m n d s);
             again = Class_ctor (wrapped_type T) (holder_type T) m' n' d'
         in fst (commit H T m n d s) = Inl (Thrown e)
          \<and> objs s' = objs s
          \<and> trace s' = trace s @ [\<lparr>caller = T,
                call = Class_ctor (wrapped_type T) (holder_type T) m n d, response = Inl e\<rparr>]
          \<and> trace (snd (commit H T m' n' d' s'))
              = trace s' @ [\<lparr>caller = T, call = again, response = H (trace s') again\<rparr>]
          \<and> (\<forall>c. H (trace s') again = Inr c \<longrightarrow>
                fst (commit H T m' n' d' s') = Inr Derived
              \<and> objs (snd (commit H T m' n' d' s')) T Derived = Some \<lparr>m_cls = c\<rparr>)"
proof -
  let ?e = "\<lparr>caller = T, call = Class_ctor (wrapped_type T) (holder_type T) m n d,
      response = Inl e :: exn + clsref\<rparr>"
  let ?s' = "s\<lparr>trace := trace s @ [?e]\<rparr>"
  let ?again = "Class_ctor (wrapped_type T) (holder_type T) m' n' d' :: 'a host_call"
  have first: "commit H T m n d s = (Inl (Thrown e), ?s')"
    using assms by (rule commit_thrown)
  have still: "objs ?s' T Derived = None" using assms(1) by simp
  have second: "trace (snd (commit H T m' n' d' ?s'))
      = trace ?s' @ [\<lparr>caller = T, call = ?again, response = H (trace ?s') ?again\<rparr>]"
  proof (cases "H (trace ?s') ?again")
    case (Inl e')
    with still show ?thesis using commit_thrown [of ?s' T H m' n' d' e'] by simp
  next
    case (Inr c)
    with still show ?thesis using commit_returned [of ?s' T H m' n' d' c] by simp
  qed
  have third: "fst (commit H T m' n' d' ?s') = Inr Derived
      \<and> objs (snd (commit H T m' n' d' ?s')) T Derived = Some \<lparr>m_cls = c\<rparr>"
    if "H (trace ?s') ?again = Inr c" for c
    using still that commit_returned [of ?s' T H m' n' d' c] by simp
  show ?thesis
    unfolding Let_def first snd_conv fst_conv
    using second third by simp
qed

theorem commit_failure_leaves_unconstructed_witness:
  "objs name_in_use WrapVector Derived = None
   \<and> sample_host (trace name_in_use)
        (Class_ctor (wrapped_type WrapVector) (holder_type WrapVector) 0 ''Vector'' ''doc1'')
       = Inl ''name already defined''
   \<and> fst (commit sample_host WrapVector 0 ''Vector'' ''doc1'' name_in_use)
       = Inl (Thrown ''name already defined'')
   \<and> objs (snd (commit sample_host WrapVector 0 ''Vector'' ''doc1'' name_in_use)) WrapVector Derived
       = None
   \<and> fst (commit sample_host WrapVector 0 ''Vector3'' ''doc1''
        (snd (commit sample_host WrapVector 0 ''Vector'' ''doc1'' name_in_use))) = Inr Derived
   \<and> objs (snd (commit sample_host WrapVector 0 ''Vector3'' ''doc1''
        (snd (commit sample_host WrapVector 0 ''Vector'' ''doc1'' name_in_use)))) WrapVector Derived
       = Some \<lparr>m_cls = 2\<rparr>"
proof -
  have ne: "WrapMatrix \<noteq> WrapVector"
    by (simp add: WrapMatrix_def WrapVector_def WrapBase_def)
  have h1: "objs name_in_use WrapVector Derived = None"
    using ne by (simp add: name_in_use_eq)
  have h2: "sample_host (trace name_in_use)
        (Class_ctor (wrapped_type WrapVector) (holder_type WrapVector) 0 ''Vector'' ''doc1'')
       = Inl ''name already defined''"
    by (simp add: name_in_use_eq sample_host_def name_taken_def)
  have h3: "sample_host
       (trace (snd (commit sample_host WrapVector 0 ''Vector'' ''doc1'' name_in_use)))
       (Class_ctor (wrapped_type WrapVector) (holder_type WrapVector) 0 ''Vector3'' ''doc1'')
       = Inr 2"
    using commit_failure_leaves_unconstructed
      [where H = sample_host and s = name_in_use and T = WrapVector and m = 0
         and n = "''Vector''" and d = "''doc1''" and e = "''name already defined''", OF h1 h2]
    by (simp add: Let_def name_in_use_eq sample_host_def name_taken_def)
  show ?thesis
    using h1 h2 h3 commit_failure_leaves_unconstructed
      [where H = sample_host and s = name_in_use and T = WrapVector and m = 0
         and n = "''Vector''" and d = "''doc1''" and e = "''name already defined''"
         and m' = 0 and n' = "''Vector3''" and d' = "''doc1''", OF h1 h2]
    by (simp add: Let_def)
qed

subsection \<open>Member registration\<close>

text \<open>
  C4. For a live receiver \<open>r\<close> and each of the four members: whenever the member
  returns, it returns \<open>r\<close>, and it does return when the primitive of the host does.
  A chain of any length that returns, returns \<open>r\<close>; on a host whose member primitives
  never throw every chain returns.
\<close>

theorem registration_returns_receiver:
  assumes "objs s T r = Some w"
  shows "(\<forall>r'. fst (registration k H T r a s) = Inr r' \<longrightarrow> r' = r)
    \<and> (\<forall>h. H (trace s) (Class_method k (m_cls w) a) = Inr h \<longrightarrow>
          fst (registration k H T r a s) = Inr r)
    \<and> (\<forall>r'. fst (chain H T r cs s) = Inr r' \<longrightarrow> r' = r)
    \<and> ((\<forall>tr k c a. \<exists>h. H tr (Class_method k c a) = Inr h) \<longrightarrow>
          fst (chain H T r cs s) = Inr r)"
proof -
  have one: "\<forall>r'. fst (registration k H T r a s) = Inr r' \<longrightarrow> r' = r"
    by (blast dest: registration_result)
  have two: "\<forall>h. H (trace s) (Class_method k (m_cls w) a) = Inr h \<longrightarrow>
      fst (registration k H T r a s) = Inr r"
    using assms by (simp add: registration_live)
  have three: "\<forall>r'. fst (chain H T r cs s) = Inr r' \<longrightarrow> r' = r"
    by (blast dest: chain_result)
  have four: "fst (chain H T r cs s) = Inr r"
    if "\<forall>tr k c a. \<exists>h. H tr (Class_method k c a) = Inr h"
    using chain_is_run [of H s T r w cs] that assms by simp
  from one two three four show ?thesis by blast
qed

theorem registration_returns_receiver_witness:
  "objs vector_committed WrapVector Derived = Some \<lparr>m_cls = 0\<rparr>
   \<and> sample_host (trace vector_committed) (Class_method Def 0 ''norm'') = Inr 0
   \<and> fst (def sample_host WrapVector Derived ''norm'' vector_committed) = Inr Derived
   \<and> fst (chain sample_host WrapVector Derived
        [(Def, ''norm''), (Def_property, ''x''), (Def_property_readonly, ''size'')]
        vector_committed) = Inr Derived"
proof -
  have h1: "objs vector_committed WrapVector Derived = Some \<lparr>m_cls = 0\<rparr>"
    by (simp add: vector_committed_eq)
  have h2: "sample_host (trace vector_committed) (Class_method Def 0 ''norm'') = Inr 0"
    by (simp add: sample_host_def)
  have h3: "\<forall>tr k c a. \<exists>h. (sample_host :: string host) tr (Class_method k c a) = Inr h"
    by (simp add: sample_host_def)
  show ?thesis
    using h1 h2 h3 registration_returns_receiver
      [where H = sample_host and s = vector_committed and T = WrapVector and r = Derived
         and w = "\<lparr>m_cls = 0\<rparr>" and k = Def and a = "''norm''"
         and cs = "[(Def, ''norm''), (Def_property, ''x''), (Def_property_readonly, ''size'')]",
       OF h1]
    by simp
qed

text \<open>
  C5. Member calls on a live receiver \<open>r\<close>, any number of them and on any host, add to
  the calls the host has received exactly one call each, in the order of the calls,
  with the kind and the arguments of each and the handle held by \<open>r\<close>; equal calls
  are all forwarded. On a host whose member primitives never throw, the fluent chain
  of the same calls leaves the same state.
\<close>

theorem registrations_forwarded_in_order:
  assumes "objs s T r = Some w"
  shows "(\<exists>es. trace (run H (calls T r cs) s) = trace s @ es
            \<and> map call es = map (forwarded (m_cls w)) cs
            \<and> map caller es = replicate (length cs) T)
    \<and> ((\<forall>tr k c a. \<exists>h. H tr (Class_method k c a) = Inr h) \<longrightarrow>
          snd (chain H T r cs s) = run H (calls T r cs) s)"
proof -
  have "\<exists>es. trace (run H (calls T r cs) s) = trace s @ es
            \<and> map call es = map (forwarded (m_cls w)) cs
            \<and> map caller es = replicate (length cs) T"
    using run_calls [OF assms, of H cs] by blast
  moreover have "snd (chain H T r cs s) = run H (calls T r cs) s"
    if "\<forall>tr k c a. \<exists>h. H tr (Class_method k c a) = Inr h"
    using chain_is_run [of H s T r w cs] that assms by simp
  ultimately show ?thesis by blast
qed

theorem registrations_forwarded_in_order_witness:
  "objs vector_committed WrapVector Derived = Some \<lparr>m_cls = 0\<rparr>
   \<and> map call (trace (run sample_host
        (calls WrapVector Derived [(Def, ''a''), (Def_property, ''b''), (Def, ''a'')])
        vector_committed))
       = [Class_ctor (Named ''Vector'') (Unique_ptr (Named ''Vector'')) 0 ''Vector'' ''doc1'',
          Class_method Def 0 ''a'', Class_method Def_property 0 ''b'', Class_method Def 0 ''a'']
   \<and> snd (chain sample_host WrapVector Derived
        [(Def, ''a''), (Def_property, ''b''), (Def, ''a'')] vector_committed)
       = run sample_host
          (calls WrapVector Derived [(Def, ''a''), (Def_property, ''b''), (Def, ''a'')])
          vector_committed"
proof -
  let ?cs = "[(Def, ''a''), (Def_property, ''b''), (Def, ''a'')]"
  have h1: "objs vector_committed WrapVector Derived = Some \<lparr>m_cls = 0\<rparr>"
    by (simp add: vector_committed_eq)
  have h2: "\<forall>tr k c a. \<exists>h. (sample_host :: string host) tr (Class_method k c a) = Inr h"
    by (simp add: sample_host_def)
  note fwd = registrations_forwarded_in_order
      [where H = sample_host and s = vector_committed and T = WrapVector and r = Derived
         and w = "\<lparr>m_cls = 0\<rparr>" and cs = ?cs, OF h1]
  from fwd obtain es where
    es: "trace (run sample_host (calls WrapVector Derived ?cs) vector_committed)
           = trace vector_committed @ es"
      "map call es = map (forwarded (m_cls \<lparr>m_cls = 0\<rparr>)) ?cs"
    by blast
  have "map call (trace (run sample_host (calls WrapVector Derived ?cs) vector_committed))
       = [Class_ctor (Named ''Vector'') (Unique_ptr (Named ''Vector'')) 0 ''Vector'' ''doc1'',
          Class_method Def 0 ''a'', Class_method Def_property 0 ''b'', Class_method Def 0 ''a'']"
    using es by (simp add: forwarded_def vector_committed_eq)
  moreover have "snd (chain sample_host WrapVector Derived ?cs vector_committed)
       = run sample_host (calls WrapVector Derived ?cs) vector_committed"
    using fwd h2 by blast
  ultimately show ?thesis using h1 by blast
qed

text \<open>
  C9. A member call changes no wrapper object, hence not the \<^verbatim>\<open>m_cls\<close> of its
  receiver. On a live receiver its one effect is the call of the primitive on the
  held handle, and whatever handle \<open>h\<close> the primitive returns, the member returns the
  receiver.
\<close>

theorem registration_keeps_m_cls:
  "objs (snd (registration k H T r a s)) = objs s
   \<and> (\<forall>w. objs s T r = Some w \<longrightarrow>
        trace (snd (registration k H T r a s))
          = trace s @ [\<lparr>caller = T, call = Class_method k (m_cls w) a,
               response = H (trace s) (Class_method k (m_cls w) a)\<rparr>]
      \<and> (\<forall>h. H (trace s) (Class_method k (m_cls w) a) = Inr h \<longrightarrow>
            fst (registration k H T r a s) = Inr r))"
proof (intro conjI allI impI)
  show "objs (snd (registration k H T r a s)) = objs s"
    by (rule registration_objs)
next
  fix w
  assume live: "objs s T r = Some w"
  show "trace (snd (registration k H T r a s))
          = trace s @ [\<lparr>caller = T, call = Class_method k (m_cls w) a,
               response = H (trace s) (Class_method k (m_cls w) a)\<rparr>]"
    using live by (simp add: registration_live)
next
  fix w h
  assume live: "objs s T r = Some w"
    and returned: "H (trace s) (Class_method k (m_cls w) a) = Inr h"
  show "fst (registration k H T r a s) = Inr r"
    using live returned by (simp add: registration_live)
qed

theorem registration_keeps_m_cls_witness:
  "objs vector_committed WrapVector Derived = Some \<lparr>m_cls = 0\<rparr>
   \<and> sample_host (trace vector_committed) (Class_method Def_property 0 ''x'') = Inr 0
   \<and> objs (snd (def_property sample_host WrapVector Derived ''x'' vector_committed))
       = objs vector_committed
   \<and> trace (snd (def_property sample_host WrapVector Derived ''x'' vector_committed))
       = trace vector_committed
         @ [\<lparr>caller = WrapVector, call = Class_method Def_property 0 ''x'', response = Inr 0\<rparr>]
   \<and> fst (def_property sample_host WrapVector Derived ''x'' vector_committed) = Inr Derived"
proof -
  have h1: "objs vector_committed WrapVector Derived = Some \<lparr>m_cls = 0\<rparr>"
    by (simp add: vector_committed_eq)
  have h2: "sample_host (trace vector_committed) (Class_method Def_property 0 ''x'') = Inr 0"
    by (simp add: sample_host_def)
  show ?thesis
    using h1 h2 registration_keeps_m_cls
      [where H = sample_host and s = vector_committed and T = WrapVector and r = Derived
         and k = Def_property and a = "''x''"]
    by simp
qed

subsection \<open>Copies\<close>

text \<open>
  C10. The copy constructor gives the new object the \<^verbatim>\<open>m_cls\<close> of its source, and
  the copy assignment gives it to the receiver; neither calls the host. Every
  operation preserves \<open>once\<close>, and so, whatever the operations performed from the
  initial state, at most one class declaration of an instantiation has returned a
  handle.
\<close>

theorem copies_share_the_class:
  "(\<forall>w. objs s T src = Some w \<longrightarrow>
        fst (copy_ctor T dst src s) = Inr (Elsewhere dst)
      \<and> objs (snd (copy_ctor T dst src s)) T (Elsewhere dst) = Some \<lparr>m_cls = m_cls w\<rparr>)
   \<and> trace (snd (copy_ctor T dst src s)) = trace s
   \<and> (\<forall>w w'. objs s T this = Some w \<and> objs s T other = Some w' \<longrightarrow>
        fst (copy_assign T this other s) = Inr this
      \<and> objs (snd (copy_assign T this other s)) T this = Some \<lparr>m_cls = m_cls w'\<rparr>)
   \<and> trace (snd (copy_assign T this other s)) = trace s
   \<and> (once T' s \<longrightarrow> once T' (snd (exec H x s)))
   \<and> length (handles_created T' (trace (run H ops init))) \<le> 1"
proof -
  have ctor: "\<forall>w. objs s T src = Some w \<longrightarrow>
        fst (copy_ctor T dst src s) = Inr (Elsewhere dst)
      \<and> objs (snd (copy_ctor T dst src s)) T (Elsewhere dst) = Some \<lparr>m_cls = m_cls w\<rparr>"
    by (simp add: copy_ctor_def)
  have ctor_trace: "trace (snd (copy_ctor T dst src s)) = trace s"
    by (simp add: copy_ctor_def split: option.split)
  have assign: "\<forall>w w'. objs s T this = Some w \<and> objs s T other = Some w' \<longrightarrow>
        fst (copy_assign T this other s) = Inr this
      \<and> objs (snd (copy_assign T this other s)) T this = Some \<lparr>m_cls = m_cls w'\<rparr>"
    by (simp add: copy_assign_def)
  have assign_trace: "trace (snd (copy_assign T this other s)) = trace s"
    by (simp add: copy_assign_def split: option.split)
  have step: "once T' s \<longrightarrow> once T' (snd (exec H x s))"
    by (simp add: exec_once)
  have "once T' (run H ops init)"
    using init_once by (rule run_once)
  then have bound: "length (handles_created T' (trace (run H ops init))) \<le> 1"
    by (simp add: once_def split: if_splits)
  from ctor ctor_trace assign assign_trace step bound show ?thesis by blast
qed

theorem copies_share_the_class_witness:
  "objs vector_copied WrapVector Derived = Some \<lparr>m_cls = 0\<rparr>
   \<and> objs vector_copied WrapVector (Elsewhere 1) = Some \<lparr>m_cls = 0\<rparr>
   \<and> once WrapVector vector_copied
   \<and> fst (copy_ctor WrapVector 2 Derived vector_copied) = Inr (Elsewhere 2)
   \<and> objs (snd (copy_ctor WrapVector 2 Derived vector_copied)) WrapVector (Elsewhere 2)
       = Some \<lparr>m_cls = 0\<rparr>
   \<and> trace (snd (copy_ctor WrapVector 2 Derived vector_copied)) = trace vector_copied
   \<and> fst (copy_assign WrapVector (Elsewhere 1) Derived vector_copied) = Inr (Elsewhere 1)
   \<and> objs (snd (copy_assign WrapVector (Elsewhere 1) Derived vector_copied)) WrapVector
        (Elsewhere 1) = Some \<lparr>m_cls = 0\<rparr>
   \<and> trace (snd (copy_assign WrapVector (Elsewhere 1) Derived vector_copied))
       = trace vector_copied
   \<and> once WrapVector
        (snd (exec sample_host (Commit WrapVector 0 ''Vector2'' ''doc2'') vector_copied))
   \<and> length (handles_created WrapVector (trace (run sample_host
        [Commit WrapVector 0 ''Vector'' ''doc1'', Copy_ctor WrapVector 1 Derived,
         Commit WrapVector 0 ''Vector2'' ''doc2''] (init :: string state)))) \<le> 1"
proof -
  have h1: "objs vector_copied WrapVector Derived = Some \<lparr>m_cls = 0\<rparr>"
    by (simp add: vector_copied_eq)
  have h2: "objs vector_copied WrapVector (Elsewhere 1) = Some \<lparr>m_cls = 0\<rparr>"
    by (simp add: vector_copied_eq)
  have h3: "once WrapVector vector_copied"
    by (simp add: vector_copied_eq once_def handles_created_def ctor_calls_def is_ctor_def)
  show ?thesis
    using h1 h2 h3 copies_share_the_class
      [where H = sample_host and s = vector_copied and T = WrapVector and src = Derived
         and dst = 2 and this = "Elsewhere 1" and other = Derived and T' = WrapVector
         and x = "Commit WrapVector 0 ''Vector2'' ''doc2''"
         and ops = "[Commit WrapVector 0 ''Vector'' ''doc1'', Copy_ctor WrapVector 1 Derived,
            Commit WrapVector 0 ''Vector2'' ''doc2'']"]
    by simp
qed

end
